theory Spec2Isabelle
  imports Main "HOL-Library.Char_ord"
begin

section \<open>JavaScript values used by the formatter\<close>

text \<open>
  The library works on JavaScript strings and numbers. Strings are character lists.
  Indexing a string or an array out of range yields \<open>undefined\<close> in JavaScript; the
  model returns \<open>None\<close> there.
\<close>

definition at :: "'a list \<Rightarrow> int \<Rightarrow> 'a option" where
  "at xs i = (if 0 \<le> i \<and> i < int (length xs) then Some (xs ! nat i) else None)"

definition startsWith :: "string \<Rightarrow> string \<Rightarrow> bool" where
  "startsWith s p = (take (length p) s = p)"

fun findIndex :: "('a \<Rightarrow> bool) \<Rightarrow> 'a list \<Rightarrow> int" where
  "findIndex P [] = -1"
| "findIndex P (x # xs) =
     (if P x then 0 else (let r = findIndex P xs in if r = -1 then -1 else r + 1))"

definition findLastIndex :: "('a \<Rightarrow> bool) \<Rightarrow> 'a list \<Rightarrow> int" where
  "findLastIndex P xs =
     (let r = findIndex P (rev xs) in if r = -1 then -1 else int (length xs) - 1 - r)"

fun split_on :: "char \<Rightarrow> string \<Rightarrow> string list" where
  "split_on c [] = [[]]"
| "split_on c (x # xs) =
     (if x = c then [] # split_on c xs
      else (case split_on c xs of [] \<Rightarrow> [[x]] | w # ws \<Rightarrow> (x # w) # ws))"

definition is_digit :: "char \<Rightarrow> bool" where
  "is_digit c = (CHR ''0'' \<le> c \<and> c \<le> CHR ''9'')"

definition digit_char :: "nat \<Rightarrow> char" where
  "digit_char d = ''0123456789'' ! d"

definition digit_val :: "char \<Rightarrow> nat" where
  "digit_val c = of_char c - 48"

fun show_nat :: "nat \<Rightarrow> string" where
  "show_nat n = (if n < 10 then [digit_char n] else show_nat (n div 10) @ [digit_char (n mod 10)])"

declare show_nat.simps [simp del]

definition nat_of_digits :: "string \<Rightarrow> nat" where
  "nat_of_digits s = foldl (\<lambda>a c. 10 * a + digit_val c) 0 s"

text \<open>
  A JavaScript number is an IEEE double. The formatter compares numbers, takes absolute
  values, multiplies by powers of 100 and prints them with \<open>String\<close>. The model names a
  finite number by the decimal that \<open>String\<close> prints for it, the shortest decimal that
  reads back as the same double: \<open>Dec m x\<close> stands for \<open>m * 10^x\<close>. Comparison and
  \<open>Math.abs\<close> are exact on these names. A product of doubles is not: it is left
  unspecified below. \<open>NaN\<close> and the infinities are not values of the type; they appear
  as results of the product only.
\<close>

datatype number = Dec (mant: int) (expo: int)

definition num_less :: "number \<Rightarrow> number \<Rightarrow> bool" where
  "num_less a b =
     (let x = min (expo a) (expo b)
      in mant a * 10 ^ nat (expo a - x) < mant b * 10 ^ nat (expo b - x))"

definition num_eq :: "number \<Rightarrow> number \<Rightarrow> bool" where
  "num_eq a b =
     (let x = min (expo a) (expo b)
      in mant a * 10 ^ nat (expo a - x) = mant b * 10 ^ nat (expo b - x))"

definition num_zero :: number where
  "num_zero = Dec 0 0"

definition Math_abs :: "number \<Rightarrow> number" where
  "Math_abs v = Dec \<bar>mant v\<bar> (expo v)"

definition strip_trailing_zeros :: "string \<Rightarrow> string" where
  "strip_trailing_zeros s = rev (dropWhile (\<lambda>c. c = CHR ''0'') (rev s))"

text \<open>
  The position of the decimal point of a number, as \<open>String\<close> computes it, and the
  number of its significant digits.
\<close>

definition point_position :: "number \<Rightarrow> int" where
  "point_position w = int (length (show_nat (nat \<bar>mant w\<bar>))) + expo w"

definition significant_digits :: "number \<Rightarrow> nat" where
  "significant_digits w = length (strip_trailing_zeros (show_nat (nat \<bar>mant w\<bar>)))"

text \<open>
  Not every decimal is printed by \<open>String\<close> for some double: the double \<open>2^64\<close> is
  printed as \<open>18446744073709552000\<close>, not with the twenty digits of \<open>2^64\<close>, and the
  literal \<open>2.9999999999999999\<close> reads as the double \<open>3\<close>. Three kinds of decimals are
  known to be read as a double that \<open>String\<close> prints back digit for digit: zero, the
  decimals of at most 15 significant digits within the range of the normal doubles, and
  the integers of magnitude at most \<open>2^53\<close>.
\<close>

definition prints_as_itself :: "number \<Rightarrow> bool" where
  "prints_as_itself w =
     (mant w = 0 \<or>
      (significant_digits w \<le> 15 \<and> -300 < point_position w \<and> point_position w \<le> 300) \<or>
      (0 \<le> expo w \<and> \<bar>mant w\<bar> * 10 ^ nat (expo w) \<le> 2 ^ 53))"

text \<open>
  The digits of \<open>String(v)\<close>, after ECMAScript's Number::toString: with \<open>ds\<close> the \<open>k\<close>
  significant digits and \<open>n\<close> the position of the decimal point, positional notation is
  used for \<open>-6 < n \<le> 21\<close> and exponent notation otherwise.
\<close>

definition String_decimal :: "number \<Rightarrow> string" where
  "String_decimal v =
     (if mant v = 0 then ''0''
      else
        let s = show_nat (nat \<bar>mant v\<bar>);
            ds = strip_trailing_zeros s;
            k = int (length ds);
            n = int (length s) + expo v;
            body =
              (if k \<le> n \<and> n \<le> 21 then ds @ replicate (nat (n - k)) CHR ''0''
               else if 0 < n \<and> n \<le> 21 then take (nat n) ds @ ''.'' @ drop (nat n) ds
               else if -6 < n \<and> n \<le> 0 then ''0.'' @ replicate (nat (- n)) CHR ''0'' @ ds
               else
                 let e = n - 1;
                     es = (if e < 0 then ''-'' else ''+'') @ show_nat (nat \<bar>e\<bar>)
                 in if k = 1 then ds @ ''e'' @ es
                    else take 1 ds @ ''.'' @ drop 1 ds @ ''e'' @ es)
        in (if mant v < 0 then ''-'' else '''') @ body)"

text \<open>
  \<open>String(v)\<close> for a number: the digits of the decimal when it is one that \<open>String\<close>
  prints back, and left unspecified for any other decimal (\<open>String_rounded\<close>), where
  \<open>String\<close> prints the at most 17 significant digits of the double that the decimal
  reads as.
\<close>

definition String_rounded :: "number \<Rightarrow> string" where
  "String_rounded = (SOME f. True)"

definition String_number :: "number \<Rightarrow> string" where
  "String_number v = (if prints_as_itself v then String_decimal v else String_rounded v)"

text \<open>
  The percent scaling \<open>numValue * Math.pow(100, percentCount)\<close> is a product of doubles:
  it rounds in binary (\<open>0.29 * 100\<close> is \<open>28.999999999999996\<close>), overflows to
  \<open>Infinity\<close> and gives \<open>NaN\<close> for \<open>0 * Infinity\<close>. The model does not compute it:
  \<open>times_pow100\<close> is an unspecified function, of which nothing is known but its type,
  whose results are the finite numbers, \<open>Infinity\<close> and \<open>NaN\<close>.
\<close>

datatype product = Finite number | Infinite | NotANumber

definition times_pow100 :: "number \<Rightarrow> nat \<Rightarrow> product" where
  "times_pow100 = (SOME f. True)"

definition String_product :: "product \<Rightarrow> string" where
  "String_product p =
     (case p of
        Finite w \<Rightarrow> String_number w
      | Infinite \<Rightarrow> ''Infinity''
      | NotANumber \<Rightarrow> ''NaN'')"

text \<open>
  \<open>Number(s)\<close> for a string matching \<open>-?\d+(\.\d+)?\<close>, the only strings the tokenizer
  converts. \<open>Number\<close> rounds the literal to the nearest double. A literal that
  \<open>String\<close> prints back digit for digit is the number itself; for any other literal
  the result is left unspecified (\<open>Number_rounded\<close>; a literal beyond the range of the
  doubles gives \<open>Infinity\<close>, which the type does not hold).
\<close>

definition decimal_of_literal :: "string \<Rightarrow> number" where
  "decimal_of_literal s =
     (let neg = (case s of c # _ \<Rightarrow> c = CHR ''-'' | [] \<Rightarrow> False);
          s1 = (if neg then tl s else s);
          ip = takeWhile is_digit s1;
          fp = drop 1 (dropWhile is_digit s1);
          m = int (nat_of_digits (ip @ fp))
      in Dec (if neg then - m else m) (- int (length fp)))"

definition Number_rounded :: "string \<Rightarrow> number" where
  "Number_rounded = (SOME f. True)"

definition Number_literal :: "string \<Rightarrow> number" where
  "Number_literal s =
     (let w = decimal_of_literal s
      in if prints_as_itself w then w else Number_rounded s)"

definition match_number :: "string \<Rightarrow> bool" where
  "match_number s =
     (let s1 = (case s of c # r \<Rightarrow> if c = CHR ''-'' then r else s | [] \<Rightarrow> s);
          ip = takeWhile is_digit s1;
          r = dropWhile is_digit s1
      in ip \<noteq> [] \<and>
         (case r of [] \<Rightarrow> True
          | c # fp \<Rightarrow> c = CHR ''.'' \<and> fp \<noteq> [] \<and> list_all is_digit fp))"

datatype Value = Str string | Num number

definition String_value :: "Value \<Rightarrow> string" where
  "String_value v = (case v of Str s \<Rightarrow> s | Num n \<Rightarrow> String_number n)"

section \<open>Tokenizer (tokenizer.ts)\<close>

datatype Token =
    DateToken (tk_token: string)
  | SectionSeparator
  | DecimalPoint
  | ThousandSep
  | Percent_tk
  | TextPlaceholder
  | Placeholder (tk_char: string)
  | Literal_tk (tk_char: string)
  | Escape (tk_char: string)
  | Fill (tk_char: string)
  | Space (tk_char: string)
  | Color (tk_name: string)
  | ScientificSymbol (tk_sign: "string option")
  | Quoted (tk_text: string)
  | Locale (tk_raw: string)
  | Condition_tk (tk_op: string) (tk_value: number)

text \<open>The \<open>type\<close> tag of a token, the string the parser switches on.\<close>

fun tk_type :: "Token \<Rightarrow> string" where
  "tk_type (DateToken _) = ''DateToken''"
| "tk_type SectionSeparator = ''SectionSeparator''"
| "tk_type DecimalPoint = ''DecimalPoint''"
| "tk_type ThousandSep = ''ThousandSep''"
| "tk_type Percent_tk = ''Percent''"
| "tk_type TextPlaceholder = ''TextPlaceholder''"
| "tk_type (Placeholder _) = ''Placeholder''"
| "tk_type (Literal_tk _) = ''Literal''"
| "tk_type (Escape _) = ''Escape''"
| "tk_type (Fill _) = ''Fill''"
| "tk_type (Space _) = ''Space''"
| "tk_type (Color _) = ''Color''"
| "tk_type (ScientificSymbol _) = ''ScientificSymbol''"
| "tk_type (Quoted _) = ''Quoted''"
| "tk_type (Locale _) = ''Locale''"
| "tk_type (Condition_tk _ _) = ''Condition''"

text \<open>
  The tokenizer keeps the format and a cursor \<open>pos\<close>; the model works on the unread
  suffix of the format. Each reader returns its token and the suffix left after it.
\<close>

fun readQuoted_loop :: "string \<Rightarrow> string \<Rightarrow> string \<times> string" where
  "readQuoted_loop text [] = (text, [])"
| "readQuoted_loop text [ch] =
     (if ch = CHR 0x22 then (text, []) else readQuoted_loop (text @ [ch]) [])"
| "readQuoted_loop text (ch # c2 # cs) =
     (if ch = CHR 0x22 then
        (if c2 = CHR 0x22 then readQuoted_loop (text @ [CHR 0x22]) cs else (text, c2 # cs))
      else readQuoted_loop (text @ [ch]) (c2 # cs))"

definition readQuoted :: "string \<Rightarrow> Token \<times> string" where
  "readQuoted s = (case readQuoted_loop [] (drop 1 s) of (text, rest) \<Rightarrow> (Quoted text, rest))"

definition readEscape :: "string \<Rightarrow> Token \<times> string" where
  "readEscape s = (Escape (take 1 (drop 1 s)), drop 2 s)"

definition readFill :: "string \<Rightarrow> Token \<times> string" where
  "readFill s = (Fill (take 1 (drop 1 s)), drop 2 s)"

definition readSpace :: "string \<Rightarrow> Token \<times> string" where
  "readSpace s = (Space (take 1 (drop 1 s)), drop 2 s)"

definition condition_ops :: "string list" where
  "condition_ops = [''<='', ''>='', ''<>'', ''<'', ''>'', ''='']"

definition condMatch :: "string \<Rightarrow> (string \<times> string) option" where
  "condMatch content =
     (case find (\<lambda>p. startsWith content p \<and> match_number (drop (length p) content))
             condition_ops of
        None \<Rightarrow> None
      | Some p \<Rightarrow> Some (p, drop (length p) content))"

definition colors :: "string list" where
  "colors = [''Black'', ''Blue'', ''Cyan'', ''Green'', ''Magenta'', ''Red'', ''White'', ''Yellow'']"

definition readBracket :: "string \<Rightarrow> Token \<times> string" where
  "readBracket s =
     (let body = drop 1 s;
          content = takeWhile (\<lambda>c. c \<noteq> CHR '']'') body;
          rest = drop 1 (dropWhile (\<lambda>c. c \<noteq> CHR '']'') body)
      in (case condMatch content of
            Some (p, num) \<Rightarrow> (Condition_tk p (Number_literal num), rest)
          | None \<Rightarrow>
              if content \<in> set colors then (Color content, rest)
              else (Locale content, rest)))"

definition tryScientific :: "string \<Rightarrow> (Token \<times> string) option" where
  "tryScientific s =
     (case s of
        ch # sign # rest \<Rightarrow>
          if (ch = CHR ''E'' \<or> ch = CHR ''e'') \<and> (sign = CHR ''+'' \<or> sign = CHR ''-'')
          then Some (ScientificSymbol (Some [sign]), rest) else None
      | _ \<Rightarrow> None)"

definition date_patterns :: "string list" where
  "date_patterns =
     [''yyyy'', ''yyy'', ''yy'', ''y'', ''mmmmm'', ''mmmm'', ''mmm'', ''mm'', ''m'',
      ''dddd'', ''ddd'', ''dd'', ''d'', ''hh'', ''h'', ''ss'', ''s'', ''AM/PM'', ''am/pm'']"

definition tryDateToken :: "string \<Rightarrow> (Token \<times> string) option" where
  "tryDateToken s =
     (case find (\<lambda>p. startsWith s p) date_patterns of
        None \<Rightarrow> None
      | Some p \<Rightarrow> Some (DateToken p, drop (length p) s))"

text \<open>One iteration of the loop of \<open>tokenize\<close>: the token read at a non-empty suffix.\<close>

definition next_token :: "string \<Rightarrow> Token \<times> string" where
  "next_token s =
     (let ch = hd s in
      if ch = CHR '';'' then (SectionSeparator, tl s)
      else if ch = CHR 0x22 then readQuoted s
      else if ch = CHR 0x5C then readEscape s
      else if ch = CHR ''*'' then readFill s
      else if ch = CHR ''_'' then readSpace s
      else if ch = CHR ''['' then readBracket s
      else if ch = CHR ''0'' \<or> ch = CHR ''#'' \<or> ch = CHR ''?'' then (Placeholder [ch], tl s)
      else if ch = CHR ''.'' then (DecimalPoint, tl s)
      else if ch = CHR '','' then (ThousandSep, tl s)
      else if ch = CHR ''%'' then (Percent_tk, tl s)
      else
        (case (if ch = CHR ''E'' \<or> ch = CHR ''e'' then tryScientific s else None) of
           Some r \<Rightarrow> r
         | None \<Rightarrow>
             if ch = CHR ''@'' then (TextPlaceholder, tl s)
             else (case tryDateToken s of
                     Some r \<Rightarrow> r
                   | None \<Rightarrow> (Literal_tk [ch], tl s))))"

lemma readQuoted_loop_length: "length (snd (readQuoted_loop t s)) \<le> length s"
  by (induction t s rule: readQuoted_loop.induct) auto

lemma find_Some_mem: "find P xs = Some x \<Longrightarrow> x \<in> set xs \<and> P x"
  by (induction xs) (auto split: if_splits)

lemma readQuoted_shorter: "s \<noteq> [] \<Longrightarrow> length (snd (readQuoted s)) < length s"
  using readQuoted_loop_length [of "[]" "tl s"]
  by (cases s; cases "readQuoted_loop [] (tl s)") (auto simp: readQuoted_def)

lemma readBracket_shorter: "s \<noteq> [] \<Longrightarrow> length (snd (readBracket s)) < length s"
proof -
  assume ne: "s \<noteq> []"
  have "length (dropWhile (\<lambda>c. c \<noteq> CHR '']'') (drop 1 s)) \<le> length (drop 1 s)"
    by (rule length_dropWhile_le)
  then have "length (drop 1 (dropWhile (\<lambda>c. c \<noteq> CHR '']'') (drop 1 s))) < length s"
    using ne by (cases s) auto
  then show ?thesis
    by (simp add: readBracket_def Let_def split: option.splits prod.splits)
qed

lemma tryScientific_shorter: "tryScientific s = Some r \<Longrightarrow> length (snd r) < length s"
  by (auto simp: tryScientific_def split: list.splits if_splits)

lemma tryDateToken_shorter:
  assumes "tryDateToken s = Some r" and "s \<noteq> []"
  shows "length (snd r) < length s"
proof -
  from assms obtain p where p: "find (\<lambda>p. startsWith s p) date_patterns = Some p"
    and r: "r = (DateToken p, drop (length p) s)"
    by (auto simp: tryDateToken_def split: option.splits)
  have "[] \<notin> set date_patterns" by (simp add: date_patterns_def)
  with find_Some_mem [OF p] have "p \<noteq> []" by auto
  then show ?thesis using assms(2) r by (cases p) auto
qed

lemma next_token_shorter: "s \<noteq> [] \<Longrightarrow> length (snd (next_token s)) < length s"
proof -
  assume ne: "s \<noteq> []"
  have t: "length (tl s) < length s" using ne by (cases s) auto
  have d2: "length (drop 2 s) < length s" using ne by (cases s) auto
  have sc: "\<And>r. (if hd s = CHR ''E'' \<or> hd s = CHR ''e'' then tryScientific s else None) = Some r
              \<Longrightarrow> length (snd r) < length s"
    by (auto split: if_splits dest: tryScientific_shorter)
  have dt: "\<And>r. tryDateToken s = Some r \<Longrightarrow> length (snd r) < length s"
    using ne by (rule tryDateToken_shorter [rotated])
  show ?thesis
    unfolding next_token_def Let_def
    using ne
    by (simp add: t d2 readQuoted_shorter [OF ne] readBracket_shorter [OF ne]
          readEscape_def readFill_def readSpace_def sc dt split: option.splits)
qed

function tokenize :: "string \<Rightarrow> Token list" where
  "tokenize s = (if s = [] then [] else (case next_token s of (tk, rest) \<Rightarrow> tk # tokenize rest))"
  by pat_completeness auto
termination
proof (relation "measure length", goal_cases)
  case 1
  show ?case by simp
next
  case (2 s x y)
  then show ?case
    using next_token_shorter [of s] by (cases "next_token s") auto
qed

declare tokenize.simps [simp del]

section \<open>Parser (parser.ts)\<close>

datatype FormatPartKind = Digit | ZeroDigit | SpaceDigit | Percent | Literal | Dot

text \<open>
  Optional properties are \<open>option\<close> values, \<open>None\<close> standing for \<open>undefined\<close>. The
  \<open>kind\<close> of a part is optional too: the parser looks it up in a table keyed by the
  placeholder's character, and a key outside the table yields \<open>undefined\<close>.
\<close>

record FormatPart =
  kind :: "FormatPartKind option"
  char :: "string option"

record Condition =
  op :: string
  "value" :: number

record FormatSection =
  condition :: "Condition option"
  color :: "string option"
  parts :: "FormatPart list"
  scientific :: "string option"
  percentCount :: "nat option"
  thousandSeparator :: "bool option"
  scale :: "nat option"

record FormatAST =
  sections :: "FormatSection list"

definition empty_section :: FormatSection where
  "empty_section =
     \<lparr>condition = None, color = None, parts = [], scientific = None,
      percentCount = None, thousandSeparator = None, scale = None\<rparr>"

definition push_part :: "FormatPart \<Rightarrow> FormatSection \<Rightarrow> FormatSection" where
  "push_part p section = section\<lparr>parts := parts section @ [p]\<rparr>"

definition placeholder_kind :: "string \<Rightarrow> FormatPartKind option" where
  "placeholder_kind c =
     (if c = ''0'' then Some ZeroDigit
      else if c = ''#'' then Some Digit
      else if c = ''?'' then Some SpaceDigit
      else None)"

definition has_type :: "Token option \<Rightarrow> string \<Rightarrow> bool" where
  "has_type t ty = (case t of None \<Rightarrow> False | Some tk \<Rightarrow> tk_type tk = ty)"

text \<open>
  The body of the loop of \<open>Parser.parse\<close>: the \<open>switch\<close> on \<open>tk.type\<close>, with the
  previous token \<open>prevTk\<close>, the tokens \<open>rest\<close> after \<open>tk\<close> (so that \<open>nextTk\<close> is the first
  of them, if any), the sections pushed so far and the section in progress. The cases
  are those of the source, in its order and with its string tags.
\<close>

definition parse_step ::
  "Token option \<Rightarrow> Token \<Rightarrow> Token list \<Rightarrow> FormatSection list \<times> FormatSection
     \<Rightarrow> FormatSection list \<times> FormatSection" where
  "parse_step prevTk tk rest st =
     (let sections = fst st; section = snd st;
          nextTk = (case rest of [] \<Rightarrow> None | n # _ \<Rightarrow> Some n);
          ty = tk_type tk
      in
      if ty = ''Color'' then (sections, section\<lparr>color := Some (tk_name tk)\<rparr>)
      else if ty = ''Condition'' then
        (sections, section\<lparr>condition := Some \<lparr>op = tk_op tk, value = tk_value tk\<rparr>\<rparr>)
      else if ty = ''SectionSeparator'' then (sections @ [section], empty_section)
      else if ty = ''Dot'' then
        (sections, push_part \<lparr>kind = Some Dot, char = None\<rparr> section)
      else if ty = ''ThousandSep'' then
        (if has_type prevTk ''Placeholder'' then
           (if has_type nextTk ''Placeholder'' then
              (sections, section\<lparr>thousandSeparator := Some True\<rparr>)
            else if \<not> list_ex (\<lambda>t. tk_type t = ''Placeholder'') rest then
              (sections,
               section\<lparr>scale := Some ((case scale section of None \<Rightarrow> 1 | Some k \<Rightarrow> k) * 1000)\<rparr>)
            else (sections, section))
         else if has_type prevTk ''Literal'' then
           (sections, push_part \<lparr>kind = Some Literal, char = Some '',''\<rparr> section)
         else (sections, section))
      else if ty = ''Percent'' then
        (sections,
         push_part \<lparr>kind = Some Percent, char = None\<rparr>
           (section\<lparr>percentCount :=
              Some ((case percentCount section of None \<Rightarrow> 0 | Some k \<Rightarrow> k) + 1)\<rparr>))
      else if ty = ''ScientificSymbol'' then (sections, section\<lparr>scientific := tk_sign tk\<rparr>)
      else if ty = ''Literal'' then
        (sections, push_part \<lparr>kind = Some Literal, char = Some (tk_char tk)\<rparr> section)
      else if ty = ''Quoted'' then
        (sections,
         section\<lparr>parts := parts section
            @ map (\<lambda>c. \<lparr>kind = Some Literal, char = Some [c]\<rparr>) (tk_text tk)\<rparr>)
      else if ty = ''Placeholder'' then
        (sections, push_part \<lparr>kind = placeholder_kind (tk_char tk), char = None\<rparr> section)
      else (sections, section))"

fun parse_loop ::
  "Token option \<Rightarrow> Token list \<Rightarrow> FormatSection list \<times> FormatSection
     \<Rightarrow> FormatSection list \<times> FormatSection" where
  "parse_loop prevTk [] st = st"
| "parse_loop prevTk (tk # rest) st = parse_loop (Some tk) rest (parse_step prevTk tk rest st)"

definition parse :: "Token list \<Rightarrow> FormatAST" where
  "parse tokens =
     (let st = parse_loop None tokens ([], empty_section);
          sections = fst st; section = snd st
      in \<lparr>sections = (if length (parts section) > 0 then sections @ [section] else sections)\<rparr>)"

section \<open>Renderer (renderer.ts)\<close>

definition evaluateCondition :: "Condition \<Rightarrow> number \<Rightarrow> bool" where
  "evaluateCondition cond numValue =
     (let cop = op cond; v = value cond in
      if cop = ''>'' then num_less v numValue
      else if cop = ''>='' then num_less v numValue \<or> num_eq numValue v
      else if cop = ''<'' then num_less numValue v
      else if cop = ''<='' then num_less numValue v \<or> num_eq numValue v
      else if cop = ''='' \<or> cop = ''=='' then num_eq numValue v
      else if cop = ''<>'' \<or> cop = ''!='' then \<not> num_eq numValue v
      else True)"

definition has_condition :: "FormatSection \<Rightarrow> bool" where
  "has_condition s = (condition s \<noteq> None)"

definition holds :: "number \<Rightarrow> FormatSection \<Rightarrow> bool" where
  "holds v s = (case condition s of None \<Rightarrow> False | Some c \<Rightarrow> evaluateCondition c v)"

definition selectSection :: "FormatAST \<Rightarrow> Value \<Rightarrow> FormatSection option" where
  "selectSection ast v =
     (let secs = sections ast in
      if length secs = 1 then at secs 0
      else
        let conditionalSections = filter has_condition secs in
        if length conditionalSections > 0 \<and> (case v of Num _ \<Rightarrow> True | Str _ \<Rightarrow> False) then
          (case v of
             Num n \<Rightarrow>
               (case find (holds n) conditionalSections of
                  Some section \<Rightarrow> Some section
                | None \<Rightarrow>
                    let nonConditionalSections = filter (\<lambda>s. \<not> has_condition s) secs in
                    if length nonConditionalSections > 0 then at nonConditionalSections 0
                    else None)
           | Str _ \<Rightarrow> None)
        else
          (case v of
             Str _ \<Rightarrow> if length secs = 4 then at secs 3 else at secs 0
           | Num numValue \<Rightarrow>
               if length secs = 2 then
                 (if num_less numValue num_zero then at secs 1 else at secs 0)
               else if length secs = 3 then
                 (if num_less num_zero numValue then at secs 0
                  else if num_less numValue num_zero then at secs 1
                  else at secs 2)
               else if length secs = 4 then
                 (if num_less num_zero numValue then at secs 0
                  else if num_less numValue num_zero then at secs 1
                  else at secs 2)
               else at secs 0))"

definition part_text :: "FormatPart \<Rightarrow> string" where
  "part_text p = (case char p of None \<Rightarrow> ''undefined'' | Some c \<Rightarrow> c)"

definition formatTextSection :: "string \<Rightarrow> FormatSection \<Rightarrow> string" where
  "formatTextSection txt section =
     foldl (\<lambda>result part. if kind part = Some Literal then result @ part_text part else result)
       [] (parts section)"

definition is_placeholder :: "FormatPart \<Rightarrow> bool" where
  "is_placeholder p =
     (kind p = Some Digit \<or> kind p = Some ZeroDigit \<or> kind p = Some SpaceDigit)"

text \<open>
  \<open>formatIntegerPart\<close>: the closure variables \<open>digitIndex\<close>, \<open>result\<close> and \<open>digits\<close> are
  the state. \<open>result\<close> is the array of pushed strings, in push order; an \<open>undefined\<close>
  element is joined as the empty string.
\<close>

record int_state =
  digitIndex :: int
  result :: "string list"
  digits :: nat

definition nextInt :: "string \<Rightarrow> int_state \<Rightarrow> char option \<times> int_state" where
  "nextInt integerStr st = (at integerStr (digitIndex st), st\<lparr>digitIndex := digitIndex st - 1\<rparr>)"

definition hasMoreInt :: "int_state \<Rightarrow> bool" where
  "hasMoreInt st = (digitIndex st \<ge> 0)"

definition pushDigit :: "FormatSection \<Rightarrow> string \<Rightarrow> int_state \<Rightarrow> int_state" where
  "pushDigit section c st =
     (let st1 = (if thousandSeparator section = Some True \<and> digits st > 0 \<and> digits st mod 3 = 0
                 then st\<lparr>result := result st @ ['','']\<rparr> else st)
      in st1\<lparr>digits := digits st1 + 1, result := result st1 @ [c]\<rparr>)"

function flushInt :: "string \<Rightarrow> FormatSection \<Rightarrow> int_state \<Rightarrow> int_state" where
  "flushInt integerStr section st =
     (if hasMoreInt st then
        (case nextInt integerStr st of
           (d, st1) \<Rightarrow>
             flushInt integerStr section
               (pushDigit section (case d of None \<Rightarrow> [] | Some c \<Rightarrow> [c]) st1))
      else st)"
  by pat_completeness auto
termination
  by (relation "measure (\<lambda>(i, s, st). nat (digitIndex st + 1))")
     (auto simp: hasMoreInt_def nextInt_def pushDigit_def Let_def)

declare flushInt.simps [simp del]

definition int_step ::
  "string \<Rightarrow> FormatSection \<Rightarrow> int \<Rightarrow> int_state \<Rightarrow> nat \<times> FormatPart \<Rightarrow> int_state" where
  "int_step integerStr section lastDigitIndex st ip =
     (let index = fst ip; part = snd ip in
      if is_placeholder part then
        (case nextInt integerStr st of
           (digit, st1) \<Rightarrow>
             let st2 =
               (case digit of
                  None \<Rightarrow>
                    if kind part = Some ZeroDigit then pushDigit section ''0'' st1
                    else if kind part = Some SpaceDigit then st1\<lparr>result := result st1 @ ['' '']\<rparr>
                    else st1
                | Some d \<Rightarrow> pushDigit section [d] st1)
             in if int index = lastDigitIndex then flushInt integerStr section st2 else st2)
      else if kind part = Some Literal then
        st\<lparr>result := result st @ [case char part of None \<Rightarrow> [] | Some c \<Rightarrow> c]\<rparr>
      else if kind part = Some Percent then st\<lparr>result := result st @ [''%'']\<rparr>
      else st)"

definition formatIntegerPart :: "string \<Rightarrow> FormatSection \<Rightarrow> FormatPart list \<Rightarrow> string" where
  "formatIntegerPart integerStr section ps =
     (let st0 = \<lparr>digitIndex = int (length integerStr) - 1, result = [], digits = 0\<rparr>;
          firstDigitIndex = findIndex is_placeholder ps;
          lastDigitIndex =
            (if firstDigitIndex > -1 then int (length ps) - firstDigitIndex - 1 else -1);
          st = foldl (int_step integerStr section lastDigitIndex) st0 (enumerate 0 (rev ps))
      in concat (rev (result st)))"

text \<open>
  \<open>formatDecimalPart\<close>: the state is \<open>result\<close>, \<open>digitIndex\<close> and \<open>digits\<close>, as a triple.
  \<open>Number(c)\<close> is applied to a one-character string: a digit gives its value, white
  space gives 0 and any other character gives \<open>NaN\<close>.
\<close>

definition Number_char :: "char \<Rightarrow> nat option" where
  "Number_char c =
     (if is_digit c then Some (digit_val c)
      else if c \<in> set [CHR 0x09, CHR 0x0A, CHR 0x0B, CHR 0x0C, CHR 0x0D, CHR 0x20, CHR 0xA0]
      then Some 0
      else None)"

definition increment_char :: "char \<Rightarrow> string" where
  "increment_char c = (case Number_char c of None \<Rightarrow> ''NaN'' | Some d \<Rightarrow> show_nat (d + 1))"

definition pushDigit_dec ::
  "string \<Rightarrow> int \<Rightarrow> char \<Rightarrow> string \<times> nat \<times> nat \<Rightarrow> string \<times> nat \<times> nat" where
  "pushDigit_dec decimalStr lastPlaceholderIndex c st =
     (case st of (res, di, dg) \<Rightarrow>
        let c1 =
          (if int dg = lastPlaceholderIndex then
             (case at decimalStr (int dg + 1) of
                None \<Rightarrow> [c]
              | Some nxt \<Rightarrow>
                  if CHR ''5'' \<le> nxt \<and> nxt \<le> CHR ''9'' then increment_char c else [c])
           else [c])
        in (res @ c1, di, dg + 1))"

definition dec_step ::
  "string \<Rightarrow> int \<Rightarrow> string \<times> nat \<times> nat \<Rightarrow> FormatPart \<Rightarrow> string \<times> nat \<times> nat" where
  "dec_step decimalStr lastPlaceholderIndex st part =
     (case st of (res, di, dg) \<Rightarrow>
        if kind part = Some ZeroDigit then
          pushDigit_dec decimalStr lastPlaceholderIndex
            (case at decimalStr (int di) of None \<Rightarrow> CHR ''0'' | Some d \<Rightarrow> d) (res, di + 1, dg)
        else if kind part = Some Digit then
          (case at decimalStr (int di) of
             None \<Rightarrow> (res, di + 1, dg)
           | Some d \<Rightarrow> pushDigit_dec decimalStr lastPlaceholderIndex d (res, di + 1, dg))
        else if kind part = Some SpaceDigit then
          pushDigit_dec decimalStr lastPlaceholderIndex
            (case at decimalStr (int di) of None \<Rightarrow> CHR '' '' | Some d \<Rightarrow> d) (res, di + 1, dg)
        else if kind part = Some Percent then (res @ ''%'', di, dg)
        else if kind part = Some Literal then (res @ part_text part, di, dg)
        else st)"

definition formatDecimalPart :: "string \<Rightarrow> FormatSection \<Rightarrow> FormatPart list \<Rightarrow> string" where
  "formatDecimalPart decimalStr section ps =
     (let lastPlaceholderIndex = findLastIndex is_placeholder ps
      in fst (foldl (dec_step decimalStr lastPlaceholderIndex) ([], 0, 0) ps))"

definition renderSection :: "FormatSection \<Rightarrow> Value \<Rightarrow> string" where
  "renderSection section v =
     (case v of
        Str s \<Rightarrow> formatTextSection s section
      | Num n \<Rightarrow>
          let isNegative = num_less n num_zero;
              numValue = Math_abs n;
              scaled =
                (case percentCount section of
                   None \<Rightarrow> Finite numValue
                 | Some k \<Rightarrow> if k > 0 then times_pow100 numValue k else Finite numValue);
              numStr = String_product scaled;
              pieces = split_on CHR ''.'' numStr;
              integerStr = (case at pieces 0 of None \<Rightarrow> [] | Some x \<Rightarrow> x);
              decimalStr = (case at pieces 1 of None \<Rightarrow> [] | Some x \<Rightarrow> x);
              dotIndex = findIndex (\<lambda>p. kind p = Some Dot) (parts section);
              integerParts =
                (if dotIndex > -1 then take (nat dotIndex) (parts section) else parts section);
              decimalParts =
                (if dotIndex > -1 then drop (nat (dotIndex + 1)) (parts section) else []);
              formatedInt = formatIntegerPart integerStr section integerParts;
              formatedInt = (if isNegative then ''-'' @ formatedInt else formatedInt)
          in if dotIndex = -1 then formatedInt
             else formatedInt @ ''.'' @ formatDecimalPart decimalStr section decimalParts)"

record RenderResult =
  "text" :: string
  color :: "string option"

text \<open>
  \<open>render\<close> tokenizes and parses the format and then works on the AST only; that second
  half is \<open>render_ast\<close>.
\<close>

definition render_ast :: "FormatAST \<Rightarrow> Value \<Rightarrow> RenderResult" where
  "render_ast ast v =
     (case selectSection ast v of
        None \<Rightarrow> \<lparr>text = String_value v, color = None\<rparr>
      | Some section \<Rightarrow>
          (case condition section of
             Some c \<Rightarrow>
               (case v of
                  Num n \<Rightarrow>
                    if \<not> evaluateCondition c n then \<lparr>text = String_value v, color = None\<rparr>
                    else \<lparr>text = renderSection section v, color = FormatSection.color section\<rparr>
                | Str _ \<Rightarrow> \<lparr>text = String_value v, color = None\<rparr>)
           | None \<Rightarrow> \<lparr>text = renderSection section v, color = FormatSection.color section\<rparr>))"

definition render :: "Value \<Rightarrow> string \<Rightarrow> RenderResult" where
  "render v format = render_ast (parse (tokenize format)) v"

text \<open>The parts the parser builds, named for use in statements.\<close>

abbreviation zero_part :: FormatPart where
  "zero_part \<equiv> \<lparr>kind = Some ZeroDigit, char = None\<rparr>"

abbreviation digit_part :: FormatPart where
  "digit_part \<equiv> \<lparr>kind = Some Digit, char = None\<rparr>"

abbreviation space_part :: FormatPart where
  "space_part \<equiv> \<lparr>kind = Some SpaceDigit, char = None\<rparr>"

abbreviation dot_part :: FormatPart where
  "dot_part \<equiv> \<lparr>kind = Some Dot, char = None\<rparr>"

abbreviation percent_part :: FormatPart where
  "percent_part \<equiv> \<lparr>kind = Some Percent, char = None\<rparr>"

abbreviation literal_part :: "string \<Rightarrow> FormatPart" where
  "literal_part c \<equiv> \<lparr>kind = Some Literal, char = Some c\<rparr>"

abbreviation cond_section :: "string \<Rightarrow> number \<Rightarrow> string \<Rightarrow> FormatSection" where
  "cond_section opr n c \<equiv>
     empty_section\<lparr>condition := Some \<lparr>op = opr, value = n\<rparr>, parts := [literal_part c]\<rparr>"

abbreviation lit_section :: "string \<Rightarrow> FormatSection" where
  "lit_section c \<equiv> empty_section\<lparr>parts := [literal_part c]\<rparr>"

text \<open>A section with its \<open>scale\<close> field cleared, to compare sections up to \<open>scale\<close>.\<close>

definition erase_scale :: "FormatSection \<Rightarrow> FormatSection" where
  "erase_scale s = s\<lparr>scale := None\<rparr>"

text \<open>The plain decimal string of an integer, as the specification uses it.\<close>

definition show_int :: "int \<Rightarrow> string" where
  "show_int v = (if v < 0 then ''-'' else '''') @ show_nat (nat \<bar>v\<bar>)"




text \<open>A section none of whose parts is a Dot part.\<close>

definition dot_free :: "FormatSection \<Rightarrow> bool" where
  "dot_free s = (\<forall>p\<in>set (parts s). kind p \<noteq> Some Dot)"

section \<open>Evaluation rules\<close>

lemma empty_section_fields [simp]:
  "condition empty_section = None" "FormatSection.color empty_section = None"
  "parts empty_section = []" "scientific empty_section = None"
  "percentCount empty_section = None" "thousandSeparator empty_section = None"
  "scale empty_section = None"
  by (simp_all add: empty_section_def)

lemmas tok_eval =
  tokenize.simps next_token_def readQuoted_def readEscape_def readFill_def readSpace_def
  readBracket_def condMatch_def condition_ops_def colors_def startsWith_def match_number_def
  Number_literal_def decimal_of_literal_def prints_as_itself_def significant_digits_def
  point_position_def strip_trailing_zeros_def show_nat.simps nat_of_digits_def is_digit_def
  digit_val_def tryScientific_def
  tryDateToken_def date_patterns_def Let_def

lemmas parse_eval =
  parse_def parse_step_def push_part_def placeholder_kind_def has_type_def Let_def

lemmas str_eval =
  String_number_def String_decimal_def prints_as_itself_def significant_digits_def
  point_position_def show_nat.simps digit_char_def strip_trailing_zeros_def Let_def

lemmas sel_eval =
  render_def render_ast_def selectSection_def at_def has_condition_def holds_def
  evaluateCondition_def num_less_def num_eq_def num_zero_def String_value_def

lemmas sec_eval =
  renderSection_def Math_abs_def String_product_def num_less_def num_zero_def at_def Let_def

lemmas int_eval =
  formatIntegerPart_def int_step_def is_placeholder_def nextInt_def at_def pushDigit_def
  flushInt.simps hasMoreInt_def Let_def enumerate_eq_zip upt_rec

lemmas dec_eval =
  formatDecimalPart_def dec_step_def pushDigit_dec_def findLastIndex_def is_placeholder_def
  at_def part_text_def increment_char_def Number_char_def is_digit_def digit_val_def
  show_nat.simps digit_char_def Let_def

lemma tokenize_0_00:
  "tokenize ''0.00'' = [Placeholder ''0'', DecimalPoint, Placeholder ''0'', Placeholder ''0'']"
  by (simp add: tok_eval)

lemma parse_0_00:
  "parse [Placeholder ''0'', DecimalPoint, Placeholder ''0'', Placeholder ''0''] =
     \<lparr>sections = [empty_section\<lparr>parts := [zero_part, zero_part, zero_part]\<rparr>]\<rparr>"
  by (simp add: parse_eval)

section \<open>The decimal point\<close>

text \<open>
  C1. The specification and the repository's tests give
  \<open>render(123.456, "0.00") = {text: "123.46"}\<close> with no color. The code returns the text
  \<open>"123"\<close>: the tokenizer tags the token for \<open>.\<close> as \<open>DecimalPoint\<close>, the parser's
  \<open>switch\<close> has its case under the tag \<open>Dot\<close>, so the token falls through the
  \<open>switch\<close>, the section has the three parts \<open>0 0 0\<close> and no Dot part, and the
  renderer formats the integer digits only. Given a section with the Dot part in place,
  the renderer does produce \<open>123.46\<close>.
\<close>

theorem render_0_00:
  "render (Num (Dec 123456 (-3))) ''0.00'' = \<lparr>text = ''123'', color = None\<rparr>
   \<and> renderSection (empty_section\<lparr>parts := [zero_part, dot_part, zero_part, zero_part]\<rparr>)
         (Num (Dec 123456 (-3))) = ''123.46''"
proof -
  have s: "String_number (Dec 123456 (-3)) = ''123.456''" by (simp add: str_eval)
  have i: "\<And>sec. thousandSeparator sec = None \<Longrightarrow>
             formatIntegerPart ''123'' sec [zero_part, zero_part, zero_part] = ''123''"
    by (simp add: int_eval)
  have r: "renderSection (empty_section\<lparr>parts := [zero_part, zero_part, zero_part]\<rparr>)
             (Num (Dec 123456 (-3))) = ''123''"
    by (simp add: sec_eval s i)
  have a: "render (Num (Dec 123456 (-3))) ''0.00'' = \<lparr>text = ''123'', color = None\<rparr>"
    by (simp add: sel_eval tokenize_0_00 parse_0_00 r)
  have d: "\<And>sec. formatDecimalPart ''456'' sec [zero_part, zero_part] = ''46''"
    by (simp add: dec_eval)
  have j: "\<And>sec. thousandSeparator sec = None \<Longrightarrow> formatIntegerPart ''123'' sec [zero_part] = ''123''"
    by (simp add: int_eval)
  have b: "renderSection (empty_section\<lparr>parts := [zero_part, dot_part, zero_part, zero_part]\<rparr>)
             (Num (Dec 123456 (-3))) = ''123.46''"
    by (simp add: d sec_eval s j)
  from a b show ?thesis by simp
qed

text \<open>
  C2. The specification has the Structure Builder append a Dot part whenever it consumes
  a decimal-point token. In the code, consuming a \<open>DecimalPoint\<close> token leaves the
  sections and the section in progress unchanged, whatever the neighbouring tokens and
  the state are; the format \<open>0.00\<close> yields one section with three ZeroDigit parts and
  no Dot part.
\<close>

theorem decimal_point_dropped:
  "parse_step prevTk DecimalPoint rest st = st \<and>
   parse (tokenize ''0.00'') =
     \<lparr>sections = [empty_section\<lparr>parts := [zero_part, zero_part, zero_part]\<rparr>]\<rparr>"
  by (simp add: tokenize_0_00 parse_0_00) (simp add: parse_step_def Let_def)

text \<open>No token sequence yields a Dot part: every section the parser returns is free of them.\<close>

lemma placeholder_kind_not_dot: "placeholder_kind c \<noteq> Some Dot"
  by (simp add: placeholder_kind_def)

lemma parse_step_dot_free:
  assumes "\<forall>s\<in>set (fst st). dot_free s" and "dot_free (snd st)"
  shows "(\<forall>s\<in>set (fst (parse_step prevTk tk rest st)). dot_free s)
         \<and> dot_free (snd (parse_step prevTk tk rest st))"
  using assms
  by (cases tk)
     (auto simp: parse_step_def Let_def dot_free_def push_part_def placeholder_kind_not_dot
        empty_section_def)

lemma parse_loop_dot_free:
  "(\<forall>s\<in>set (fst st). dot_free s) \<Longrightarrow> dot_free (snd st) \<Longrightarrow>
     (\<forall>s\<in>set (fst (parse_loop prevTk tks st)). dot_free s)
     \<and> dot_free (snd (parse_loop prevTk tks st))"
proof (induction tks arbitrary: prevTk st)
  case Nil
  then show ?case by simp
next
  case (Cons tk tks)
  from parse_step_dot_free [OF Cons.prems, of prevTk tk tks]
  have a: "\<forall>s\<in>set (fst (parse_step prevTk tk tks st)). dot_free s"
    and b: "dot_free (snd (parse_step prevTk tk tks st))" by simp_all
  from Cons.IH [OF a b, of "Some tk"] show ?case by simp
qed

lemma parse_dot_free: "s \<in> set (sections (parse tks)) \<Longrightarrow> dot_free s"
  using parse_loop_dot_free [of "([], empty_section)" None tks]
  by (auto simp: parse_def Let_def dot_free_def split: if_splits)

section \<open>Rounding on the decimal side\<close>


section \<open>Section selection\<close>

lemma find_filter: "find P (filter Q xs) = find (\<lambda>x. Q x \<and> P x) xs"
  by (induction xs) auto

lemma at_filter_0: "at (filter P xs) 0 = find P xs"
  by (induction xs) (auto simp: at_def)

lemma first_of_filter:
  "(if filter Q xs \<noteq> [] then at (filter Q xs) 0 else None) = find Q xs"
  by (induction xs) (auto simp: at_def)

lemma holds_has_condition: "holds v s \<Longrightarrow> has_condition s"
  by (auto simp: holds_def has_condition_def split: option.splits)

lemma find_None_all: "(find P xs = None) = (\<forall>x\<in>set xs. \<not> P x)"
  by (induction xs) auto

lemma num_less_zero_right: "num_less v num_zero = (mant v < 0)"
  by (simp add: num_less_def num_zero_def Let_def mult_less_0_iff)

lemma num_less_zero_left: "num_less num_zero v = (0 < mant v)"
  by (simp add: num_less_def num_zero_def Let_def zero_less_mult_iff)

lemma num_eq_zero: "num_eq v num_zero = (mant v = 0)"
  by (simp add: num_eq_def num_zero_def Let_def)

text \<open>
  C3. For a numeric value and an AST with more than one section, at least one of them with
  a condition, \<open>selectSection\<close> returns the first section, in the original order,
  whose condition holds for the value; if no condition holds, the first section without
  a condition; and no section when every section has a condition and none holds.
\<close>

theorem select_conditional:
  assumes "1 < length (sections ast)"
    and "\<exists>s\<in>set (sections ast). has_condition s"
  shows "selectSection ast (Num v) =
           (case find (holds v) (sections ast) of
              Some s \<Rightarrow> Some s
            | None \<Rightarrow> find (\<lambda>s. \<not> has_condition s) (sections ast))
         \<and> ((\<forall>s\<in>set (sections ast). has_condition s \<and> \<not> holds v s)
              \<longrightarrow> selectSection ast (Num v) = None)"
proof -
  have ne: "filter has_condition (sections ast) \<noteq> []"
    using assms(2) by (simp add: filter_empty_conv)
  have f: "find (holds v) (filter has_condition (sections ast)) = find (holds v) (sections ast)"
    unfolding find_filter
    by (rule arg_cong [where f = "\<lambda>P. find P (sections ast)"]) (auto dest: holds_has_condition)
  have sel: "selectSection ast (Num v) =
           (case find (holds v) (sections ast) of
              Some s \<Rightarrow> Some s
            | None \<Rightarrow> find (\<lambda>s. \<not> has_condition s) (sections ast))"
  proof (cases "find (holds v) (sections ast)")
    case None
    have "selectSection ast (Num v) =
            (if filter (\<lambda>s. \<not> has_condition s) (sections ast) \<noteq> []
             then at (filter (\<lambda>s. \<not> has_condition s) (sections ast)) 0 else None)"
      using assms(1) ne None by (simp add: selectSection_def Let_def f)
    then show ?thesis using None by (simp only: first_of_filter option.case)
  next
    case (Some s)
    then show ?thesis
      using assms(1) ne by (simp add: selectSection_def Let_def f)
  qed
  have none: "selectSection ast (Num v) = None"
    if a: "\<forall>s\<in>set (sections ast). has_condition s \<and> \<not> holds v s"
  proof -
    from a have "find (holds v) (sections ast) = None"
      and "find (\<lambda>s. \<not> has_condition s) (sections ast) = None"
      by (simp_all add: find_None_all)
    then show ?thesis by (simp add: sel)
  qed
  show ?thesis using sel none by blast
qed

theorem select_conditional_witness:
  "1 < length [cond_section ''>'' (Dec 100 0) ''a'', cond_section ''>'' (Dec 10 0) ''b'', lit_section ''c'']
   \<and> (\<exists>s\<in>set [cond_section ''>'' (Dec 100 0) ''a'', cond_section ''>'' (Dec 10 0) ''b'',
                   lit_section ''c'']. has_condition s)
   \<and> selectSection
         \<lparr>sections = [cond_section ''>'' (Dec 100 0) ''a'', cond_section ''>'' (Dec 10 0) ''b'',
                       lit_section ''c'']\<rparr> (Num (Dec 50 0))
       = Some (cond_section ''>'' (Dec 10 0) ''b'')
   \<and> selectSection
         \<lparr>sections = [cond_section ''>'' (Dec 100 0) ''a'', cond_section ''>'' (Dec 10 0) ''b'',
                       lit_section ''c'']\<rparr> (Num (Dec 5 0))
       = Some (lit_section ''c'')
   \<and> selectSection
         \<lparr>sections = [cond_section ''>'' (Dec 100 0) ''a'', cond_section ''>'' (Dec 10 0) ''b'']\<rparr>
         (Num (Dec 5 0))
       = None"
  using select_conditional
      [of "\<lparr>sections = [cond_section ''>'' (Dec 100 0) ''a'', cond_section ''>'' (Dec 10 0) ''b'',
                       lit_section ''c'']\<rparr>" "Dec 50 0"]
    select_conditional
      [of "\<lparr>sections = [cond_section ''>'' (Dec 100 0) ''a'', cond_section ''>'' (Dec 10 0) ''b'',
                       lit_section ''c'']\<rparr>" "Dec 5 0"]
    select_conditional
      [of "\<lparr>sections = [cond_section ''>'' (Dec 100 0) ''a'', cond_section ''>'' (Dec 10 0) ''b'']\<rparr>"
          "Dec 5 0"]
  by (simp add: has_condition_def holds_def evaluateCondition_def num_less_def)

text \<open>
  C4. For an AST none of whose sections has a condition: with two sections a negative
  number selects \<open>S[1]\<close> and any other number \<open>S[0]\<close>; with three or four sections a
  positive number selects \<open>S[0]\<close>, a negative one \<open>S[1]\<close> and zero \<open>S[2]\<close>; a text
  selects \<open>S[3]\<close> when there are exactly four sections and \<open>S[0]\<close> otherwise; a single
  section is selected for every value.
\<close>

theorem select_unconditional:
  assumes "\<forall>s\<in>set (sections ast). \<not> has_condition s"
  shows "(length (sections ast) = 2 \<longrightarrow>
            selectSection ast (Num v) =
              (if num_less v num_zero then Some (sections ast ! 1) else Some (sections ast ! 0)))
       \<and> (length (sections ast) = 3 \<or> length (sections ast) = 4 \<longrightarrow>
            (num_less num_zero v \<longrightarrow> selectSection ast (Num v) = Some (sections ast ! 0)) \<and>
            (num_less v num_zero \<longrightarrow> selectSection ast (Num v) = Some (sections ast ! 1)) \<and>
            (num_eq v num_zero \<longrightarrow> selectSection ast (Num v) = Some (sections ast ! 2)))
       \<and> (length (sections ast) = 4 \<longrightarrow> selectSection ast (Str t) = Some (sections ast ! 3))
       \<and> (length (sections ast) \<noteq> 4 \<longrightarrow> selectSection ast (Str t) = at (sections ast) 0)
       \<and> (length (sections ast) = 1 \<longrightarrow> selectSection ast x = Some (sections ast ! 0))"
proof -
  have e: "filter has_condition (sections ast) = []"
    using assms by (simp add: filter_empty_conv)
  show ?thesis
    by (cases x)
       (auto simp: selectSection_def Let_def e at_def num_less_zero_right num_less_zero_left
             num_eq_zero)
qed

theorem select_unconditional_witness:
  "\<not> has_condition (lit_section ''a'') \<and> \<not> has_condition (lit_section ''b'')
   \<and> \<not> has_condition (lit_section ''c'') \<and> \<not> has_condition (lit_section ''d'')
   \<and> selectSection
         \<lparr>sections = [lit_section ''a'', lit_section ''b'', lit_section ''c'', lit_section ''d'']\<rparr>
         (Num (Dec (-5) 0)) = Some (lit_section ''b'')
   \<and> selectSection
         \<lparr>sections = [lit_section ''a'', lit_section ''b'', lit_section ''c'', lit_section ''d'']\<rparr>
         (Num (Dec 0 0)) = Some (lit_section ''c'')
   \<and> selectSection
         \<lparr>sections = [lit_section ''a'', lit_section ''b'', lit_section ''c'', lit_section ''d'']\<rparr>
         (Str ''t'') = Some (lit_section ''d'')
   \<and> selectSection \<lparr>sections = [lit_section ''a'', lit_section ''b'']\<rparr> (Num (Dec 0 0))
       = Some (lit_section ''a'')
   \<and> selectSection \<lparr>sections = [lit_section ''a'', lit_section ''b'']\<rparr> (Num (Dec (-1) (-1)))
       = Some (lit_section ''b'')
   \<and> selectSection \<lparr>sections = [lit_section ''a'', lit_section ''b'']\<rparr> (Str ''t'')
       = Some (lit_section ''a'')"
  using select_unconditional
      [of "\<lparr>sections = [lit_section ''a'', lit_section ''b'', lit_section ''c'', lit_section ''d'']\<rparr>"
          "Dec (-5) 0" "''t''" "Str ''t''"]
    select_unconditional
      [of "\<lparr>sections = [lit_section ''a'', lit_section ''b'', lit_section ''c'', lit_section ''d'']\<rparr>"
          "Dec 0 0" "''t''" "Str ''t''"]
    select_unconditional
      [of "\<lparr>sections = [lit_section ''a'', lit_section ''b'']\<rparr>" "Dec 0 0" "''t''" "Str ''t''"]
    select_unconditional
      [of "\<lparr>sections = [lit_section ''a'', lit_section ''b'']\<rparr>" "Dec (-1) (-1)" "''t''"
          "Str ''t''"]
  by (simp add: has_condition_def num_less_def num_eq_def num_zero_def at_def)

text \<open>
  C5. When \<open>selectSection\<close> finds no section, or the selected section has a condition
  that the value does not satisfy (a text never satisfies one), \<open>render\<close> returns
  \<open>String(value)\<close> with no color. \<open>render\<close> is a total function: no error is raised.
\<close>

theorem render_fallback:
  "(selectSection (parse (tokenize fmt)) v = None \<longrightarrow>
      render v fmt = \<lparr>text = String_value v, color = None\<rparr>)
   \<and> (\<forall>s c. selectSection (parse (tokenize fmt)) v = Some s \<and> condition s = Some c \<and>
             (case v of Str _ \<Rightarrow> True | Num n \<Rightarrow> \<not> evaluateCondition c n)
        \<longrightarrow> render v fmt = \<lparr>text = String_value v, color = None\<rparr>)"
  by (auto simp: render_def render_ast_def split: Value.splits)

theorem render_fallback_witness:
  "selectSection (parse (tokenize ''[>9]0;[<0]0'')) (Num (Dec 5 0)) = None
   \<and> render (Num (Dec 5 0)) ''[>9]0;[<0]0'' = \<lparr>text = ''5'', color = None\<rparr>
   \<and> render (Num (Dec 5 0)) ''[>9]0'' = \<lparr>text = ''5'', color = None\<rparr>
   \<and> render (Str ''x'') ''[>9]0'' = \<lparr>text = ''x'', color = None\<rparr>"
proof -
  have p2: "parse (tokenize ''[>9]0;[<0]0'') =
     \<lparr>sections =
        [empty_section\<lparr>condition := Some \<lparr>op = ''>'', value = Dec 9 0\<rparr>, parts := [zero_part]\<rparr>,
         empty_section\<lparr>condition := Some \<lparr>op = ''<'', value = Dec 0 0\<rparr>, parts := [zero_part]\<rparr>]\<rparr>"
    by (simp add: tok_eval parse_eval)
  have p1: "parse (tokenize ''[>9]0'') =
     \<lparr>sections =
        [empty_section\<lparr>condition := Some \<lparr>op = ''>'', value = Dec 9 0\<rparr>, parts := [zero_part]\<rparr>]\<rparr>"
    by (simp add: tok_eval parse_eval)
  have s2: "selectSection (parse (tokenize ''[>9]0;[<0]0'')) (Num (Dec 5 0)) = None"
    by (simp add: p2 selectSection_def has_condition_def holds_def evaluateCondition_def
          num_less_def num_eq_def)
  have s1: "\<And>v. selectSection (parse (tokenize ''[>9]0'')) v =
              Some (empty_section\<lparr>condition := Some \<lparr>op = ''>'', value = Dec 9 0\<rparr>,
                                    parts := [zero_part]\<rparr>)"
    by (simp add: p1 selectSection_def at_def)
  have str: "String_value (Num (Dec 5 0)) = ''5''" "String_value (Str ''x'') = ''x''"
    by (simp_all add: String_value_def str_eval)
  have e: "\<not> evaluateCondition \<lparr>op = ''>'', value = Dec 9 0\<rparr> (Dec 5 0)"
    by (simp add: evaluateCondition_def num_less_def)
  show ?thesis
    using render_fallback [of "''[>9]0;[<0]0''" "Num (Dec 5 0)"]
      render_fallback [of "''[>9]0''" "Num (Dec 5 0)"]
      render_fallback [of "''[>9]0''" "Str ''x''"]
    by (simp add: s2 s1 str e)
qed

section \<open>The scale of a section\<close>

lemma at_map: "at (map f xs) i = map_option f (at xs i)"
  by (auto simp: at_def)

lemma find_map: "find P (map f xs) = map_option f (find (P \<circ> f) xs)"
  by (induction xs) auto

lemma has_condition_erase [simp]: "has_condition (erase_scale s) = has_condition s"
  by (simp add: has_condition_def erase_scale_def)

lemma holds_erase [simp]: "holds v (erase_scale s) = holds v s"
  by (simp add: holds_def erase_scale_def)

lemma pushDigit_erase [simp]: "pushDigit (erase_scale s) = pushDigit s"
  by (intro ext) (simp add: pushDigit_def erase_scale_def)

lemma flushInt_erase [simp]: "flushInt i (erase_scale s) st = flushInt i s st"
proof (induction i s st rule: flushInt.induct)
  case (1 integerStr sec st)
  show ?case
  proof (cases "hasMoreInt st")
    case True
    obtain d st1 where n: "nextInt integerStr st = (d, st1)" by (cases "nextInt integerStr st")
    from "1.IH" [OF True n [symmetric]] True n show ?thesis
      by (simp add: flushInt.simps [of integerStr sec st]
            flushInt.simps [of integerStr "erase_scale sec" st])
  next
    case False
    then show ?thesis by (simp add: flushInt.simps)
  qed
qed

lemma int_step_erase [simp]: "int_step i (erase_scale s) l = int_step i s l"
  by (intro ext) (simp add: int_step_def Let_def split: prod.splits option.splits)

lemma formatIntegerPart_erase [simp]:
  "formatIntegerPart i (erase_scale s) ps = formatIntegerPart i s ps"
  by (simp add: formatIntegerPart_def)

lemma formatDecimalPart_section: "formatDecimalPart d s ps = formatDecimalPart d s' ps"
  by (simp add: formatDecimalPart_def)

lemma renderSection_erase [simp]: "renderSection (erase_scale s) v = renderSection s v"
proof -
  have p: "parts (erase_scale s) = parts s" "percentCount (erase_scale s) = percentCount s"
    by (simp_all add: erase_scale_def)
  show ?thesis
    by (cases v)
       (simp_all add: renderSection_def formatTextSection_def p Let_def
          formatDecimalPart_section [of _ "erase_scale s" _ s])
qed

lemma selectSection_erase:
  "selectSection \<lparr>sections = map erase_scale ss\<rparr> v
     = map_option erase_scale (selectSection \<lparr>sections = ss\<rparr> v)"
proof -
  have c: "filter has_condition (map erase_scale ss) = map erase_scale (filter has_condition ss)"
    and n: "filter (\<lambda>s. \<not> has_condition s) (map erase_scale ss)
              = map erase_scale (filter (\<lambda>s. \<not> has_condition s) ss)"
    by (simp_all add: filter_map comp_def)
  have h: "\<And>n. holds n \<circ> erase_scale = holds n" by (simp add: comp_def)
  show ?thesis
    by (cases v)
       (simp_all add: selectSection_def Let_def c n at_map find_map h split: option.splits)
qed

lemma render_ast_erase:
  "render_ast \<lparr>sections = map erase_scale ss\<rparr> v = render_ast \<lparr>sections = ss\<rparr> v"
proof (cases "selectSection \<lparr>sections = ss\<rparr> v")
  case None
  then show ?thesis by (simp add: render_ast_def selectSection_erase)
next
  case (Some s)
  have "condition (erase_scale s) = condition s"
    and "FormatSection.color (erase_scale s) = FormatSection.color s"
    by (simp_all add: erase_scale_def)
  with Some show ?thesis
    by (simp add: render_ast_def selectSection_erase split: option.splits Value.splits)
qed

text \<open>
  C10. Two ASTs whose sections agree up to their \<open>scale\<close> fields render every value to
  the same text and color: the renderer never reads \<open>scale\<close>. The formats \<open>0,\<close> and
  \<open>0\<close> differ in \<open>scale\<close> only (1000 against none) and render 1234 alike.
\<close>

theorem scale_ignored:
  assumes "map erase_scale (sections a) = map erase_scale (sections b)"
  shows "render_ast a v = render_ast b v"
proof -
  have "render_ast a v = render_ast \<lparr>sections = map erase_scale (sections a)\<rparr> v"
    by (cases a) (simp add: render_ast_erase)
  also have "\<dots> = render_ast \<lparr>sections = map erase_scale (sections b)\<rparr> v"
    by (simp add: assms)
  also have "\<dots> = render_ast b v"
    by (cases b) (simp add: render_ast_erase)
  finally show ?thesis .
qed

theorem scale_ignored_witness:
  "map erase_scale (sections (parse (tokenize ''0,''))) = map erase_scale (sections (parse (tokenize ''0'')))
   \<and> scale (hd (sections (parse (tokenize ''0,'')))) = Some 1000
   \<and> scale (hd (sections (parse (tokenize ''0'')))) = None
   \<and> render (Num (Dec 1234 0)) ''0,'' = render (Num (Dec 1234 0)) ''0''"
proof -
  have a: "parse (tokenize ''0,'') =
             \<lparr>sections = [empty_section\<lparr>parts := [zero_part], scale := Some 1000\<rparr>]\<rparr>"
    by (simp add: tok_eval parse_eval)
  have b: "parse (tokenize ''0'') = \<lparr>sections = [empty_section\<lparr>parts := [zero_part]\<rparr>]\<rparr>"
    by (simp add: tok_eval parse_eval)
  have h: "map erase_scale (sections (parse (tokenize ''0,'')))
             = map erase_scale (sections (parse (tokenize ''0'')))"
    by (simp add: a b erase_scale_def)
  show ?thesis
    using scale_ignored [OF h, of "Num (Dec 1234 0)"] h
    by (simp add: render_def) (simp add: a b)
qed

section \<open>The number of sections\<close>

lemma tk_type_separator: "(tk_type tk = ''SectionSeparator'') = (tk = SectionSeparator)"
  by (cases tk) simp_all

lemma parse_step_sections:
  "length (fst (parse_step prevTk tk rest st)) =
     length (fst st) + (if tk = SectionSeparator then 1 else 0)"
  by (cases tk) (simp_all add: parse_step_def Let_def)

lemma parse_loop_sections:
  "length (fst (parse_loop prevTk tks st)) =
     length (fst st) + length (filter (\<lambda>t. t = SectionSeparator) tks)"
  by (induction tks arbitrary: prevTk st) (simp_all add: parse_step_sections)

text \<open>
  C8, as stated: every format yields between 1 and 4 sections. The parser pushes a section
  at every separator and has no bound: the empty format yields no section and the format
  \<open>0;0;0;0;0\<close> yields five.
\<close>

theorem section_count_counterexample:
  "length (sections (parse (tokenize ''''))) = 0
   \<and> length (sections (parse (tokenize ''0;0;0;0;0''))) = 5"
proof -
  have a: "tokenize '''' = []" by (simp add: tokenize.simps)
  have b: "tokenize ''0;0;0;0;0'' =
     [Placeholder ''0'', SectionSeparator, Placeholder ''0'', SectionSeparator, Placeholder ''0'',
      SectionSeparator, Placeholder ''0'', SectionSeparator, Placeholder ''0'']"
    by (simp add: tok_eval)
  show ?thesis
    by (simp add: a b) (simp add: parse_eval)
qed

text \<open>
  C8, amended: the number of sections is the number of section-separator tokens of the
  tokenized format, plus one when the section in progress at the end of the input holds
  at least one part.
\<close>

theorem section_count:
  "length (sections (parse (tokenize fmt))) =
     length (filter (\<lambda>t. t = SectionSeparator) (tokenize fmt))
     + (if parts (snd (parse_loop None (tokenize fmt) ([], empty_section))) = [] then 0 else 1)"
  by (simp add: parse_def Let_def parse_loop_sections)

section \<open>Formats made of \<open>#\<close> only\<close>

lemma digit_char_is_digit: "d < 10 \<Longrightarrow> is_digit (digit_char d)"
proof -
  assume "d < 10"
  then have "d \<in> {0, 1, 2, 3, 4, 5, 6, 7, 8, 9}" by auto
  then show ?thesis by (auto simp: digit_char_def is_digit_def)
qed

lemma show_nat_digits: "c \<in> set (show_nat n) \<Longrightarrow> is_digit c"
proof (induction n rule: show_nat.induct)
  case (1 n)
  show ?case
  proof (cases "n < 10")
    case True
    with "1.prems" show ?thesis by (simp add: show_nat.simps [of n] digit_char_is_digit)
  next
    case False
    with "1.prems" "1.IH" show ?thesis
      by (auto simp: show_nat.simps [of n] digit_char_is_digit)
  qed
qed

lemma show_nat_nonempty: "show_nat n \<noteq> []"
  by (simp add: show_nat.simps [of n])

lemma show_nat_length_le: "n < 10 ^ j \<Longrightarrow> 0 < j \<Longrightarrow> length (show_nat n) \<le> j"
proof (induction n arbitrary: j rule: show_nat.induct)
  case (1 n)
  show ?case
  proof (cases "n < 10")
    case True
    with "1.prems" show ?thesis by (simp add: show_nat.simps [of n])
  next
    case False
    obtain i where j: "j = Suc i" using "1.prems"(2) by (cases j) auto
    from False "1.prems"(1) j have i: "0 < i" by (cases i) auto
    from "1.prems"(1) j have "n div 10 < 10 ^ i"
      by (simp add: less_mult_imp_div_less mult.commute)
    from "1.IH" [OF False this i] False j show ?thesis
      by (simp add: show_nat.simps [of n])
  qed
qed

lemma is_digit_not_dot: "is_digit c \<Longrightarrow> c \<noteq> CHR ''.''"
  by (auto simp: is_digit_def)

lemma split_on_absent: "c \<notin> set s \<Longrightarrow> split_on c s = [s]"
  by (induction s) auto

lemma strip_restore:
  "strip_trailing_zeros s
     @ replicate (length s - length (strip_trailing_zeros s)) CHR ''0'' = s"
proof -
  let ?P = "\<lambda>c. c = CHR ''0''"
  have t: "takeWhile ?P (rev s) = replicate (length (takeWhile ?P (rev s))) CHR ''0''"
    by (rule replicate_length_same [symmetric]) (auto dest: set_takeWhileD)
  have l: "length s - length (dropWhile ?P (rev s)) = length (takeWhile ?P (rev s))"
    using length_append [of "takeWhile ?P (rev s)" "dropWhile ?P (rev s)"]
    by (simp del: length_append)
  have "rev s = takeWhile ?P (rev s) @ dropWhile ?P (rev s)" by simp
  then have "s = rev (dropWhile ?P (rev s)) @ rev (takeWhile ?P (rev s))"
    by (metis rev_append rev_rev_ident)
  also have "rev (takeWhile ?P (rev s)) = replicate (length (takeWhile ?P (rev s))) CHR ''0''"
    using t by (metis rev_replicate)
  finally show ?thesis by (simp add: strip_trailing_zeros_def l)
qed

lemma strip_length_le: "length (strip_trailing_zeros s) \<le> length s"
  by (simp add: strip_trailing_zeros_def length_dropWhile_le [of _ "rev s", simplified])

lemma String_decimal_integer:
  assumes "\<bar>v\<bar> < 10 ^ 21"
  shows "String_decimal (Dec v 0) = (if v < 0 then ''-'' else '''') @ show_nat (nat \<bar>v\<bar>)"
proof (cases "v = 0")
  case True
  then show ?thesis by (simp add: String_decimal_def show_nat.simps digit_char_def)
next
  case False
  let ?s = "show_nat (nat \<bar>v\<bar>)"
  from assms have "nat \<bar>v\<bar> < 10 ^ 21" by (simp add: nat_less_iff)
  then have len: "length ?s \<le> 21" by (rule show_nat_length_le) simp
  have k: "length (strip_trailing_zeros ?s) \<le> length ?s" by (rule strip_length_le)
  show ?thesis
    using False len k strip_restore [of ?s]
    by (simp add: String_decimal_def Let_def nat_diff_distrib' del: replicate_eq_replicate)
qed

lemma pushDigit_plain:
  "thousandSeparator sec \<noteq> Some True \<Longrightarrow>
     pushDigit sec c st = st\<lparr>digits := digits st + 1, result := result st @ [c]\<rparr>"
  by (simp add: pushDigit_def)

lemma flushInt_result:
  "thousandSeparator sec \<noteq> Some True \<Longrightarrow> digitIndex st < int (length s) \<Longrightarrow>
     result (flushInt s sec st) =
       result st @ map (\<lambda>c. [c]) (rev (take (nat (digitIndex st + 1)) s))"
proof (induction s sec st rule: flushInt.induct)
  case (1 integerStr sec st)
  note ts = "1.prems"(1)
  show ?case
  proof (cases "hasMoreInt st")
    case False
    then show ?thesis by (simp add: flushInt.simps [of integerStr sec st] hasMoreInt_def)
  next
    case True
    define d where "d = nat (digitIndex st)"
    from True have d: "digitIndex st = int d" by (simp add: d_def hasMoreInt_def)
    from "1.prems"(2) d have dl: "d < length integerStr" by simp
    have n: "nextInt integerStr st = (Some (integerStr ! d), st\<lparr>digitIndex := int d - 1\<rparr>)"
      using dl by (simp add: nextInt_def at_def d)
    have ih: "result (flushInt integerStr sec
                 (pushDigit sec [integerStr ! d] (st\<lparr>digitIndex := int d - 1\<rparr>))) =
              (result st @ [[integerStr ! d]]) @ map (\<lambda>c. [c]) (rev (take d integerStr))"
      using "1.IH" [OF True n [symmetric] ts] dl
      by (simp add: pushDigit_plain [OF ts])
    have t: "take (Suc d) integerStr = take d integerStr @ [integerStr ! d]"
      using dl by (rule take_Suc_conv_app_nth)
    show ?thesis
      using True ih
      by (simp add: flushInt.simps [of integerStr sec st] n d nat_add_distrib t)
  qed
qed

lemma enumerate_replicate: "enumerate 0 (replicate n x) = map (\<lambda>i. (i, x)) [0..<n]"
  by (simp add: enumerate_eq_zip zip_replicate2)

lemma at_from_right: "j < length s \<Longrightarrow> at s (int (length s) - 1 - int j) = Some (rev s ! j)"
proof -
  assume j: "j < length s"
  then have "nat (int (length s) - 1 - int j) = length s - Suc j" by linarith
  with j show ?thesis by (simp add: at_def rev_nth)
qed

lemma int_step_digit:
  "int_step s sec l st (i, digit_part) =
     (let st2 = (case at s (digitIndex st) of
                   None \<Rightarrow> st\<lparr>digitIndex := digitIndex st - 1\<rparr>
                 | Some d \<Rightarrow> pushDigit sec [d] (st\<lparr>digitIndex := digitIndex st - 1\<rparr>))
      in if int i = l then flushInt s sec st2 else st2)"
  by (simp add: int_step_def is_placeholder_def nextInt_def Let_def)

lemma digit_steps:
  assumes "thousandSeparator sec \<noteq> Some True"
  shows "j \<le> m \<Longrightarrow>
     digitIndex (foldl (int_step s sec (int m))
        \<lparr>digitIndex = int (length s) - 1, result = [], digits = 0\<rparr>
        (map (\<lambda>i. (i, digit_part)) [0..<j])) = int (length s) - 1 - int j
     \<and> result (foldl (int_step s sec (int m))
        \<lparr>digitIndex = int (length s) - 1, result = [], digits = 0\<rparr>
        (map (\<lambda>i. (i, digit_part)) [0..<j])) = map (\<lambda>c. [c]) (take j (rev s))"
proof (induction j)
  case 0
  show ?case by simp
next
  case (Suc j)
  define st where "st = foldl (int_step s sec (int m))
        \<lparr>digitIndex = int (length s) - 1, result = [], digits = 0\<rparr>
        (map (\<lambda>i. (i, digit_part)) [0..<j])"
  from Suc have di: "digitIndex st = int (length s) - 1 - int j"
    and re: "result st = map (\<lambda>c. [c]) (take j (rev s))" and jm: "j \<noteq> m"
    by (simp_all add: st_def)
  have step: "foldl (int_step s sec (int m))
        \<lparr>digitIndex = int (length s) - 1, result = [], digits = 0\<rparr>
        (map (\<lambda>i. (i, digit_part)) [0..<Suc j]) = int_step s sec (int m) st (j, digit_part)"
    by (simp add: st_def)
  show ?case
  proof (cases "j < length s")
    case True
    then have a: "at s (int (length s) - 1 - int j) = Some (rev s ! j)"
      by (rule at_from_right)
    have t: "take (Suc j) (rev s) = take j (rev s) @ [rev s ! j]"
      using True by (simp add: take_Suc_conv_app_nth)
    show ?thesis
      unfolding step using jm
      by (simp add: int_step_digit di re a t pushDigit_plain [OF assms])
  next
    case False
    then have a: "at s (int (length s) - 1 - int j) = None"
      by (simp add: at_def)
    show ?thesis
      unfolding step using jm False
      by (simp add: int_step_digit di re a)
  qed
qed

lemma formatIntegerPart_digits:
  assumes "thousandSeparator sec \<noteq> Some True"
  shows "formatIntegerPart s sec (replicate (Suc m) digit_part) = s"
proof -
  define st where "st = foldl (int_step s sec (int m))
        \<lparr>digitIndex = int (length s) - 1, result = [], digits = 0\<rparr>
        (map (\<lambda>i. (i, digit_part)) [0..<m])"
  from digit_steps [OF assms, of m m s]
  have di: "digitIndex st = int (length s) - 1 - int m"
    and re: "result st = map (\<lambda>c. [c]) (take m (rev s))" by (simp_all add: st_def)
  have fin: "result (int_step s sec (int m) st (m, digit_part)) = map (\<lambda>c. [c]) (rev s)"
  proof (cases "m < length s")
    case True
    then have a: "at s (int (length s) - 1 - int m) = Some (rev s ! m)"
      by (rule at_from_right)
    have t: "take (Suc m) (rev s) = take m (rev s) @ [rev s ! m]"
      using True by (simp add: take_Suc_conv_app_nth)
    define st2 where "st2 = pushDigit sec [rev s ! m] (st\<lparr>digitIndex := digitIndex st - 1\<rparr>)"
    have d2: "digitIndex st2 = int (length s) - 2 - int m"
      and r2: "result st2 = map (\<lambda>c. [c]) (take (Suc m) (rev s))"
      by (simp_all add: st2_def pushDigit_plain [OF assms] di re t)
    have n: "nat (digitIndex st2 + 1) = length s - Suc m"
      using True by (simp add: d2)
    have r: "rev (take (length s - Suc m) s) = drop (Suc m) (rev s)"
      by (simp add: drop_rev)
    have lt: "digitIndex st2 < int (length s)" by (simp add: d2)
    have "result (flushInt s sec st2) =
            map (\<lambda>c. [c]) (take (Suc m) (rev s)) @ map (\<lambda>c. [c]) (drop (Suc m) (rev s))"
      using flushInt_result [OF assms lt] by (simp only: n r r2)
    also have "\<dots> = map (\<lambda>c. [c]) (rev s)"
      by (simp only: map_append [symmetric] append_take_drop_id)
    finally show ?thesis
      by (simp add: int_step_digit di a st2_def)
  next
    case False
    then have a: "at s (int (length s) - 1 - int m) = None"
      by (simp add: at_def)
    define st2 where "st2 = st\<lparr>digitIndex := digitIndex st - 1\<rparr>"
    have "\<not> hasMoreInt st2" using False by (simp add: hasMoreInt_def di st2_def)
    then have "flushInt s sec st2 = st2" by (simp add: flushInt.simps [of s sec st2])
    then show ?thesis
      using False by (simp add: int_step_digit di a re st2_def)
  qed
  have fi: "findIndex is_placeholder (replicate (Suc m) digit_part) = 0"
    by (simp add: is_placeholder_def)
  have "formatIntegerPart s sec (replicate (Suc m) digit_part) =
          concat (rev (result (int_step s sec (int m) st (m, digit_part))))"
    unfolding formatIntegerPart_def fi Let_def rev_replicate enumerate_replicate
    by (simp add: st_def del: replicate_Suc)
  also have "\<dots> = s"
    by (simp only: fin) (simp add: rev_map comp_def)
  finally show ?thesis .
qed

lemma tokenize_hashes:
  "tokenize (replicate n CHR ''#'') = replicate n (Placeholder ''#'')"
proof (induction n)
  case 0
  show ?case by (simp add: tokenize.simps)
next
  case (Suc n)
  have "next_token (CHR ''#'' # replicate n CHR ''#'') = (Placeholder ''#'', replicate n CHR ''#'')"
    by (simp add: next_token_def Let_def)
  with Suc show ?case
    by (simp add: tokenize.simps [of "CHR ''#'' # replicate n CHR ''#''"])
qed

lemma parse_step_hash:
  "parse_step prevTk (Placeholder ''#'') rest (secs, sec) =
     (secs, sec\<lparr>parts := parts sec @ [digit_part]\<rparr>)"
  by (simp add: parse_step_def push_part_def placeholder_kind_def Let_def)

lemma parse_loop_hashes:
  "parse_loop prevTk (replicate n (Placeholder ''#'')) (secs, sec) =
     (secs, sec\<lparr>parts := parts sec @ replicate n digit_part\<rparr>)"
proof (induction n arbitrary: prevTk sec)
  case 0
  show ?case by simp
next
  case (Suc n)
  show ?case
    by (simp add: parse_step_hash Suc)
qed

lemma parse_hashes:
  "0 < n \<Longrightarrow> parse (replicate n (Placeholder ''#'')) =
     \<lparr>sections = [empty_section\<lparr>parts := replicate n digit_part\<rparr>]\<rparr>"
  by (simp add: parse_def parse_loop_hashes)

lemma findIndex_none: "(\<forall>x\<in>set xs. \<not> P x) \<Longrightarrow> findIndex P xs = -1"
  by (induction xs) (simp_all add: Let_def)

lemma num_less_integer: "num_less (Dec v 0) num_zero = (v < 0)"
  by (simp add: num_less_def num_zero_def)

text \<open>
  C9, as stated: for every integer the text rendered by an all-\<open>#\<close> format is the plain
  decimal string of the integer. \<open>String\<close> prints a number of magnitude \<open>10^21\<close> or more
  in exponent notation, and the renderer splits that string at the point: the integer
  \<open>1500000000000000000000\<close> is printed as \<open>1.5e+21\<close> and rendered as \<open>1\<close>.
\<close>

theorem hashes_render_integer_counterexample:
  "text (render (Num (Dec 1500000000000000000000 0)) ''#'') = ''1''
   \<and> show_int 1500000000000000000000 = ''1500000000000000000000''"
proof -
  have t: "tokenize ''#'' = [Placeholder ''#'']" by (simp add: tok_eval)
  have p: "parse [Placeholder ''#''] = \<lparr>sections = [empty_section\<lparr>parts := [digit_part]\<rparr>]\<rparr>"
    by (simp add: parse_eval)
  have s: "String_number (Dec 1500000000000000000000 0) = ''1.5e+21''"
    by (simp add: str_eval)
  have i: "\<And>sec. thousandSeparator sec = None \<Longrightarrow> formatIntegerPart ''1'' sec [digit_part] = ''1''"
    by (simp add: int_eval)
  have r: "renderSection (empty_section\<lparr>parts := [digit_part]\<rparr>)
             (Num (Dec 1500000000000000000000 0)) = ''1''"
    by (simp add: sec_eval s i)
  have "text (render (Num (Dec 1500000000000000000000 0)) ''#'') = ''1''"
    by (simp add: render_def t p render_ast_def selectSection_def at_def r)
  moreover have "show_int 1500000000000000000000 = ''1500000000000000000000''"
    by (simp add: show_int_def show_nat.simps digit_char_def)
  ultimately show ?thesis by simp
qed

text \<open>
  C9, amended: for every integer of magnitude at most \<open>2^53\<close> and every format of one
  or more \<open>#\<close>, \<open>render\<close> returns the plain decimal string of the integer, with no
  color. (Up to \<open>2^53\<close> every integer is a number of the program and \<open>String\<close> prints
  all its digits; beyond, \<open>String\<close> prints at most 17 significant digits, followed by
  zeros, and from \<open>10^21\<close> on it prints exponent notation.)
\<close>

theorem hashes_render_integer:
  assumes "0 < n" and "\<bar>v\<bar> \<le> 2 ^ 53"
  shows "render (Num (Dec v 0)) (replicate n CHR ''#'') = \<lparr>text = show_int v, color = None\<rparr>"
proof -
  obtain m where n: "n = Suc m" using assms(1) by (cases n) auto
  define sec where "sec = empty_section\<lparr>parts := replicate n digit_part\<rparr>"
  have ts: "thousandSeparator sec \<noteq> Some True" by (simp add: sec_def)
  define w where "w = show_nat (nat \<bar>v\<bar>)"
  have "(2::int) ^ 53 < 10 ^ 21" by simp
  with assms(2) have small: "\<bar>v\<bar> < 10 ^ 21" by linarith
  have pr: "prints_as_itself (Dec \<bar>v\<bar> 0)"
    using assms(2) by (simp add: prints_as_itself_def)
  have str: "String_product (Finite (Math_abs (Dec v 0))) = w"
    using String_decimal_integer [of "\<bar>v\<bar>"] small pr
    by (simp add: Math_abs_def w_def String_product_def String_number_def)
  have nodot: "CHR ''.'' \<notin> set w"
    unfolding w_def using show_nat_digits is_digit_not_dot by blast
  have sp: "split_on CHR ''.'' w = [w]" by (rule split_on_absent [OF nodot])
  have dot: "findIndex (\<lambda>p. kind p = Some Dot) (parts sec) = -1"
    by (rule findIndex_none) (simp add: sec_def)
  have fi: "formatIntegerPart w sec (parts sec) = w"
    using formatIntegerPart_digits [OF ts, of _ m] by (simp add: sec_def n)
  have si: "show_int v = (if v < 0 then ''-'' else []) @ w"
    by (simp add: show_int_def w_def)
  have pc: "percentCount sec = None" by (simp add: sec_def)
  have rs: "renderSection sec (Num (Dec v 0)) = show_int v"
    unfolding renderSection_def
    by (simp add: Let_def pc dot str sp at_def fi num_less_integer si)
  have c: "condition sec = None" "FormatSection.color sec = None" by (simp_all add: sec_def)
  have "render (Num (Dec v 0)) (replicate n CHR ''#'') = render_ast \<lparr>sections = [sec]\<rparr> (Num (Dec v 0))"
    using assms(1) by (simp add: render_def tokenize_hashes parse_hashes sec_def)
  then show ?thesis
    by (simp add: render_ast_def selectSection_def at_def rs c)
qed

theorem hashes_render_integer_witness:
  "render (Num (Dec 123 0)) ''#####'' = \<lparr>text = ''123'', color = None\<rparr>
   \<and> render (Num (Dec (-8) 0)) ''###'' = \<lparr>text = ''-8'', color = None\<rparr>
   \<and> render (Num (Dec 0 0)) ''#'' = \<lparr>text = ''0'', color = None\<rparr>"
proof -
  have r: "replicate 5 CHR ''#'' = ''#####''" "replicate 3 CHR ''#'' = ''###''"
    "replicate 1 CHR ''#'' = ''#''"
    by (simp_all add: numeral_eq_Suc)
  show ?thesis
    using hashes_render_integer [of 5 123] hashes_render_integer [of 3 "-8"]
      hashes_render_integer [of 1 0]
    by (simp add: r show_int_def show_nat.simps digit_char_def)
qed

section \<open>Sections without a decimal point\<close>

lemma show_nat_step: "10 \<le> n \<Longrightarrow> show_nat n = show_nat (n div 10) @ [digit_char (n mod 10)]"
  by (simp add: show_nat.simps [of n])







lemma show_nat_length_one: "length (show_nat b) \<le> 1 \<Longrightarrow> b < 10"
proof (rule ccontr)
  assume l: "length (show_nat b) \<le> 1" and "\<not> b < 10"
  then have "show_nat b = show_nat (b div 10) @ [digit_char (b mod 10)]"
    by (simp add: show_nat_step)
  with l show False using show_nat_nonempty [of "b div 10"] by (cases "show_nat (b div 10)") auto
qed











end
